theory Spec2Isabelle
  imports Main
begin

section \<open>Paths, times and dicts\<close>

text \<open>
  A \<^verbatim>\<open>pathlib.Path\<close> object is held by its posix rendering: \<open>PosixPath s\<close> is the
  path whose \<^verbatim>\<open>as_posix()\<close> is \<open>s\<close>. The constructor call \<^verbatim>\<open>Path(s)\<close> of the
  code is the function \<open>Path\<close> below, which normalises the string. A \<^verbatim>\<open>datetime\<close>
  is a point on a linear time axis.
\<close>

datatype path = PosixPath string

fun as_posix :: "path \<Rightarrow> string" where
  "as_posix (PosixPath s) = s"

type_synonym datetime = int

text \<open>
  A Python dict keeps its keys in insertion order. It is an association list:
  \<^verbatim>\<open>d[k] = v\<close> overwrites the value of a key in place and appends a new key at the end,
  \<^verbatim>\<open>d.pop(k)\<close> removes the key, \<^verbatim>\<open>k in d\<close> looks the key up, \<^verbatim>\<open>d[k]\<close> raises
  \<^verbatim>\<open>KeyError\<close> on a key that is not there, and \<^verbatim>\<open>d.setdefault(k, v)\<close> returns the
  value of the key, storing \<^verbatim>\<open>v\<close> first when the key is new.
\<close>

datatype error = KeyError | AttributeError | ValueError | TypeError | OSError

type_synonym ('k, 'v) dict = "('k \<times> 'v) list"

fun dict_setitem :: "('k, 'v) dict \<Rightarrow> 'k \<Rightarrow> 'v \<Rightarrow> ('k, 'v) dict" where
  "dict_setitem [] k v = [(k, v)]"
| "dict_setitem ((k', v') # d) k v =
     (if k' = k then (k, v) # d else (k', v') # dict_setitem d k v)"

definition dict_pop :: "('k, 'v) dict \<Rightarrow> 'k \<Rightarrow> ('k, 'v) dict" where
  "dict_pop d k = filter (\<lambda>kv. fst kv \<noteq> k) d"

definition dict_contains :: "('k, 'v) dict \<Rightarrow> 'k \<Rightarrow> bool" where
  "dict_contains d k = (map_of d k \<noteq> None)"

definition dict_keys :: "('k, 'v) dict \<Rightarrow> 'k list" where
  "dict_keys d = map fst d"

definition dict_getitem :: "('k, 'v) dict \<Rightarrow> 'k \<Rightarrow> error + 'v" where
  "dict_getitem d k = (case map_of d k of None \<Rightarrow> Inl KeyError | Some v \<Rightarrow> Inr v)"

definition dict_setdefault :: "('k, 'v) dict \<Rightarrow> 'k \<Rightarrow> 'v \<Rightarrow> 'v \<times> ('k, 'v) dict" where
  "dict_setdefault d k v =
     (case map_of d k of None \<Rightarrow> (v, dict_setitem d k v) | Some v' \<Rightarrow> (v', d))"

section \<open>Operations of pathlib and str\<close>

text \<open>
  The operations of the standard library the sources call, on posix strings:
  \<^verbatim>\<open>str.join\<close>, \<^verbatim>\<open>str.split\<close> on one character, \<^verbatim>\<open>str.rfind\<close> and \<^verbatim>\<open>str(n)\<close> for a
  length; and of \<^verbatim>\<open>pathlib\<close> on a posix system:
  \<^item> the parts a string is parsed into: the root first when the string begins with a
    slash (\<^verbatim>\<open>//\<close> for exactly two leading slashes, \<^verbatim>\<open>/\<close> otherwise), then the
    components between slashes, without the empty ones and without \<^verbatim>\<open>.\<close>;
  \<^item> the path of a list of parts, whose rendering is \<^verbatim>\<open>.\<close> for no parts;
  \<^item> the constructor \<^verbatim>\<open>Path(s)\<close>, which parses the string and so normalises it
    (\<^verbatim>\<open>Path('scripts//attack.gml')\<close> is \<^verbatim>\<open>Path('scripts/attack.gml')\<close>);
  \<^item> \<^verbatim>\<open>parts\<close>, \<^verbatim>\<open>a / b\<close>, \<^verbatim>\<open>name\<close>, \<^verbatim>\<open>stem\<close>, \<^verbatim>\<open>parents\<close> and \<^verbatim>\<open>relative_to\<close>,
    which raises \<^verbatim>\<open>ValueError\<close> when the other path is not a prefix of the path.
\<close>

fun join :: "string \<Rightarrow> string list \<Rightarrow> string" where
  "join sep [] = []"
| "join sep [x] = x"
| "join sep (x # y # ys) = x @ sep @ join sep (y # ys)"

fun split_on :: "char \<Rightarrow> string \<Rightarrow> string list" where
  "split_on c [] = [[]]"
| "split_on c (x # xs) =
     (if x = c then [] # split_on c xs
      else (case split_on c xs of [] \<Rightarrow> [[x]] | w # ws \<Rightarrow> (x # w) # ws))"

definition rfind :: "string \<Rightarrow> char \<Rightarrow> int" where
  "rfind s c =
     (if c \<in> set s then int (length s) - 1 - int (length (takeWhile (\<lambda>x. x \<noteq> c) (rev s)))
      else - 1)"

fun str_nat :: "nat \<Rightarrow> string" where
  "str_nat n =
     (if n < 10 then [char_of (48 + n)] else str_nat (n div 10) @ [char_of (48 + n mod 10)])"

definition parse_parts :: "string \<Rightarrow> string list" where
  "parse_parts s =
     (let stripped = dropWhile (\<lambda>c. c = CHR ''/'') s;
          slashes = length s - length stripped;
          components = filter (\<lambda>x. x \<noteq> [] \<and> x \<noteq> ''.'') (split_on (CHR ''/'') stripped)
      in if slashes = 0 then components
         else if slashes = 2 then ''//'' # components
         else ''/'' # components)"

definition of_parts :: "string list \<Rightarrow> path" where
  "of_parts ps =
     (case ps of
        [] \<Rightarrow> PosixPath ''.''
      | x # xs \<Rightarrow>
          if x = ''/'' \<or> x = ''//'' then PosixPath (x @ join ''/'' xs)
          else PosixPath (join ''/'' ps))"

definition Path :: "string \<Rightarrow> path" where
  "Path s = of_parts (parse_parts s)"

definition parts :: "path \<Rightarrow> string list" where
  "parts p = parse_parts (as_posix p)"

definition is_absolute :: "path \<Rightarrow> bool" where
  "is_absolute p = (case parts p of [] \<Rightarrow> False | x # xs \<Rightarrow> x = ''/'' \<or> x = ''//'')"

definition joinpath :: "path \<Rightarrow> path \<Rightarrow> path" where
  "joinpath a b = (if is_absolute b then of_parts (parts b) else of_parts (parts a @ parts b))"

definition name :: "path \<Rightarrow> string" where
  "name p =
     (let ps = parts p
      in if length ps = (if is_absolute p then 1 else 0) then [] else last ps)"

definition stem :: "path \<Rightarrow> string" where
  "stem p =
     (let name' = name p; i = rfind name' (CHR ''.'')
      in if 0 < i \<and> i < int (length name') - 1 then take (nat i) name' else name')"

definition parents :: "path \<Rightarrow> path list" where
  "parents p =
     (let ps = parts p; lowest = (if is_absolute p then 1 else 0)
      in [of_parts (take k ps). k \<leftarrow> rev [lowest ..< length ps]])"

definition relative_to :: "path \<Rightarrow> path \<Rightarrow> error + path" where
  "relative_to p other =
     (let ps = parts p; os = parts other
      in if (if os = [] then is_absolute p else take (length os) ps \<noteq> os)
         then Inl ValueError
         else Inr (of_parts (drop (length os) ps)))"

section \<open>The dotfile (dotfile\_mod.py)\<close>

text \<open>
  The dotfile is the dict read from \<^verbatim>\<open>.assistant\<close>. Each key this module reads or
  writes is a field named after the module's constant for the key, holding what the
  module stores under it:
  \<^item> \<^verbatim>\<open>processed_time\<close>: read with \<^verbatim>\<open>dotfile.get(PROCESSED_TIME_FIELD, None)\<close>, so
    a missing key and a null value are the same \<open>None\<close>;
  \<^item> \<^verbatim>\<open>seen_files\<close>: the key may be missing, hold null (the code tests
    \<^verbatim>\<open>seen_files is None\<close>) or hold a list of posix strings;
  \<^item> \<^verbatim>\<open>injection_clients\<close>: missing, or a dict from a client's posix string to the
    list of its dependencies' posix strings;
  \<^item> \<^verbatim>\<open>anim_hashes\<close>: missing, or a dict from a file stem to the dict of that file's
    animation hashes (aseprites.py).
  The functions mutate the dict in place; the model returns the updated dotfile.
\<close>

datatype 'a field = Absent | Null | Present 'a

record dotfile =
  PROCESSED_TIME_FIELD :: "datetime option"
  SEEN_FILES_FIELD :: "string list field"
  INJECT_CLIENTS_FIELD :: "(string, string list) dict option"
  ANIM_HASHES_FIELD :: "(string, (string, string) dict) dict option"

text \<open>
  \<^verbatim>\<open>File\<close> (file\_handling.py, not among the sources) is used here through its
  attribute \<^verbatim>\<open>path\<close>; it carries the two timestamps its constructor takes.
\<close>

record File =
  path :: path
  modified_time :: datetime
  processed_time :: "datetime option"

definition update_dotfile_after_saving :: "dotfile \<Rightarrow> datetime \<Rightarrow> 'a File_scheme list \<Rightarrow> dotfile" where
  "update_dotfile_after_saving dotfile now seen_files =
     dotfile\<lparr>PROCESSED_TIME_FIELD := Some now,
             SEEN_FILES_FIELD := Present [as_posix (path f). f \<leftarrow> seen_files]\<rparr>"

definition update_dotfile_injection_clients :: "dotfile \<Rightarrow> path \<Rightarrow> path list \<Rightarrow> dotfile" where
  "update_dotfile_injection_clients dotfile clientscript dependencies =
     (let clients = (case INJECT_CLIENTS_FIELD dotfile of None \<Rightarrow> [] | Some d \<Rightarrow> d)
      in if length dependencies > 0
         then dotfile\<lparr>INJECT_CLIENTS_FIELD :=
                Some (dict_setitem clients (as_posix clientscript)
                        [as_posix dep. dep \<leftarrow> dependencies])\<rparr>
         else if dict_contains clients (as_posix clientscript)
         then dotfile\<lparr>INJECT_CLIENTS_FIELD := Some (dict_pop clients (as_posix clientscript))\<rparr>
         else dotfile\<lparr>INJECT_CLIENTS_FIELD := Some clients\<rparr>)"

text \<open>
  The loop of \<^verbatim>\<open>get_clients_for_injection\<close> over the keys of the table, with the list
  it appends to; the subscript \<^verbatim>\<open>dotfile[INJECT_CLIENTS_FIELD][key]\<close> is the only place
  that can raise. The client appended is \<^verbatim>\<open>Path(key)\<close>, the path the key is parsed into.
\<close>

fun clients_loop ::
  "(string, string list) dict \<Rightarrow> string \<Rightarrow> string list \<Rightarrow> path list \<Rightarrow> error + path list" where
  "clients_loop clients str_path [] clientslist = Inr clientslist"
| "clients_loop clients str_path (key # keys) clientslist =
     (case dict_getitem clients key of
        Inl e \<Rightarrow> Inl e
      | Inr deps \<Rightarrow>
          if str_path \<in> set deps
          then clients_loop clients str_path keys (clientslist @ [Path key])
          else clients_loop clients str_path keys clientslist)"

definition get_clients_for_injection :: "dotfile \<Rightarrow> path \<Rightarrow> error + path list" where
  "get_clients_for_injection dotfile injectionscript =
     (case INJECT_CLIENTS_FIELD dotfile of
        None \<Rightarrow> Inr []
      | Some clients \<Rightarrow> clients_loop clients (as_posix injectionscript) (dict_keys clients) [])"

definition get_processed_time :: "dotfile \<Rightarrow> path \<Rightarrow> datetime option" where
  "get_processed_time dotfile p =
     (let seen_files = (case SEEN_FILES_FIELD dotfile of
                          Absent \<Rightarrow> [] | Null \<Rightarrow> [] | Present l \<Rightarrow> l)
      in if as_posix p \<in> set seen_files then PROCESSED_TIME_FIELD dotfile else None)"

text \<open>
  Modelled from the spec: \<^verbatim>\<open>File.is_fresh\<close> of file\_handling.py, which is not among
  the sources. The spec's TrackedFile needs reprocessing iff its path is unseen before
  (no processed time), or its modified time is greater than its processed time.
\<close>

definition is_fresh :: "'a File_scheme \<Rightarrow> bool" where
  "is_fresh f = (case processed_time f of None \<Rightarrow> True | Some t \<Rightarrow> t < modified_time f)"

text \<open>
  Modelled from the spec: the freshness check \<^verbatim>\<open>is_stale(path, modified_time)\<close> of the
  tracker, which builds the tracked file from the path, its modified time and the
  processed time the dotfile gives for the path.
\<close>

definition is_stale :: "dotfile \<Rightarrow> path \<Rightarrow> datetime \<Rightarrow> bool" where
  "is_stale dotfile p modified =
     is_fresh \<lparr>path = p, modified_time = modified,
               processed_time = get_processed_time dotfile p\<rparr>"

text \<open>What the dotfile records: the seen paths and the table of dependencies.\<close>

definition seen_paths :: "dotfile \<Rightarrow> string set" where
  "seen_paths dotfile =
     (case SEEN_FILES_FIELD dotfile of Absent \<Rightarrow> {} | Null \<Rightarrow> {} | Present l \<Rightarrow> set l)"

definition recorded_dependencies :: "dotfile \<Rightarrow> string \<Rightarrow> string list option" where
  "recorded_dependencies dotfile =
     (case INJECT_CLIENTS_FIELD dotfile of None \<Rightarrow> Map.empty | Some clients \<Rightarrow> map_of clients)"

section \<open>Tags, animations and windows (aseprite\_handling/aseprites.py)\<close>

text \<open>
  The classes of tags.py, windows.py and anims.py are not among the sources: a tag is
  read through \<^verbatim>\<open>name\<close>, \<^verbatim>\<open>start\<close>, \<^verbatim>\<open>end\<close> and \<^verbatim>\<open>color\<close>, and \<^verbatim>\<open>Window\<close> and
  \<^verbatim>\<open>Anim\<close> are built from the keyword arguments the code passes, in that order. The
  file data (\<^verbatim>\<open>RawAsepriteFile\<close>, the binary parser) answers \<^verbatim>\<open>get_num_frames()\<close> and
  \<^verbatim>\<open>get_tags()\<close>. A color is of any type \<open>'c\<close>. Frame numbers are Python integers.
\<close>

datatype 'c Tag = Tag (tag_name: string) (tag_start: int) (tag_end: int) (tag_color: 'c)

datatype Window = Window (window_name: string) (window_start: int) (window_end: int)

record 'c RawAsepriteFile =
  get_num_frames :: int
  get_tags :: "'c Tag list"

record 'c AsepriteFileContent =
  file_data :: "'c RawAsepriteFile"

definition num_frames :: "'c AsepriteFileContent \<Rightarrow> int" where
  "num_frames c = get_num_frames (file_data c)"

definition tags :: "'c AsepriteFileContent \<Rightarrow> 'c Tag list" where
  "tags c = get_tags (file_data c)"

text \<open>
  The dict of animation hashes an \<^verbatim>\<open>Aseprite\<close> holds is not a copy: it is the dict
  object stored in the dotfile under \<^verbatim>\<open>anim_hashes\<close> and the file's stem, so a write to
  it is a write to the dotfile. The model keeps the dotfile as the store and the
  attribute as a reference into it, the key under which the object is stored.
\<close>

datatype hashes_ref = HashesOf string

datatype 'c Anim =
  Anim (anim_name: string) (anim_start: int) (anim_end: int) (anim_windows: "Window list")
    (anim_file_is_fresh: bool) (anim_content: "'c AsepriteFileContent")
    (anim_anim_hashes: "hashes_ref option")

record 'c Aseprite = File +
  anim_tag_colors :: "'c list"
  window_tag_colors :: "'c list"
  anim_hashes :: "hashes_ref option"
  u_content :: "'c AsepriteFileContent option"
  u_anims :: "'c Anim list option"

text \<open>
  The property \<^verbatim>\<open>content\<close> loads the content on first use with
  \<^verbatim>\<open>AsepriteFileContent.from_path\<close>. That method reads the file and parses it (the
  parameter \<open>read_file\<close>: the result of \<^verbatim>\<open>open\<close>, \<^verbatim>\<open>read\<close> and \<^verbatim>\<open>RawAsepriteFile\<close>,
  or the error they raise) and then calls the constructor with \<^verbatim>\<open>file_data\<close>,
  \<^verbatim>\<open>anim_tag_colors\<close>, \<^verbatim>\<open>window_tag_colors\<close> and \<^verbatim>\<open>is_fresh\<close>. The constructor has a
  third required parameter, \<^verbatim>\<open>layer_tag_colors\<close>, which the call leaves out: the call
  raises \<^verbatim>\<open>TypeError\<close>, whatever the file holds. So only an asset that was given its
  content has one.
\<close>

type_synonym 'c reader = "path \<Rightarrow> error + 'c RawAsepriteFile"

definition from_path ::
  "'c reader \<Rightarrow> path \<Rightarrow> 'c list \<Rightarrow> 'c list \<Rightarrow> bool \<Rightarrow> error + 'c AsepriteFileContent" where
  "from_path read_file p anim_tag_colors' window_tag_colors' is_fresh' =
     (case read_file p of
        Inl e \<Rightarrow> Inl e
      | Inr raw_aseprite_file \<Rightarrow> Inl TypeError)"

definition content :: "'c reader \<Rightarrow> 'c Aseprite \<Rightarrow> error + 'c AsepriteFileContent" where
  "content read_file self =
     (case u_content self of
        None \<Rightarrow> from_path read_file (path self) (anim_tag_colors self)
                  (window_tag_colors self) (is_fresh self)
      | Some c \<Rightarrow> Inr c)"

definition get_windows_in_frame_range ::
  "'c reader \<Rightarrow> 'c Aseprite \<Rightarrow> int \<Rightarrow> int \<Rightarrow> error + Window list" where
  "get_windows_in_frame_range read_file self start end' =
     (case content read_file self of
        Inl e \<Rightarrow> Inl e
      | Inr content' \<Rightarrow>
          (let tags_in_frame_range =
                 [window. window \<leftarrow> tags content',
                    tag_color window \<in> set (window_tag_colors self)
                    \<and> (start \<le> tag_start window \<and> tag_start window \<le> end')
                    \<and> (start \<le> tag_end window \<and> tag_end window \<le> end')];
               windows =
                 [Window (tag_name tag) (tag_start tag - start + 1) (tag_end tag - start + 1).
                    tag \<leftarrow> tags_in_frame_range]
           in Inr windows))"

definition make_anim_with_windows_in_range ::
  "'c reader \<Rightarrow> 'c Aseprite \<Rightarrow> string \<Rightarrow> int \<Rightarrow> int \<Rightarrow> bool \<Rightarrow> 'c AsepriteFileContent
     \<Rightarrow> hashes_ref option \<Rightarrow> error + 'c Anim" where
  "make_anim_with_windows_in_range read_file self name' start end' file_is_fresh content'
       anim_hashes' =
     (case get_windows_in_frame_range read_file self start end' of
        Inl e \<Rightarrow> Inl e
      | Inr windows \<Rightarrow> Inr (Anim name' start end' windows file_is_fresh content' anim_hashes'))"

text \<open>
  The elements of a list comprehension are evaluated in order, and the first one that
  raises ends the comprehension.
\<close>

fun collect :: "(error + 'a) list \<Rightarrow> error + 'a list" where
  "collect [] = Inr []"
| "collect (x # xs) =
     (case x of
        Inl e \<Rightarrow> Inl e
      | Inr v \<Rightarrow> (case collect xs of Inl e \<Rightarrow> Inl e | Inr vs \<Rightarrow> Inr (v # vs)))"

definition get_anims :: "'c reader \<Rightarrow> 'c Aseprite \<Rightarrow> error + 'c Anim list" where
  "get_anims read_file self =
     (case content read_file self of
        Inl e \<Rightarrow> Inl e
      | Inr content' \<Rightarrow>
          (case collect
                  [make_anim_with_windows_in_range read_file self (tag_name tag)
                     (tag_start tag) (tag_end tag) (is_fresh self) content' (anim_hashes self).
                     tag \<leftarrow> tags content',
                     tag_color tag \<in> set (anim_tag_colors self)] of
             Inl e \<Rightarrow> Inl e
           | Inr tag_anims \<Rightarrow>
               if tag_anims \<noteq> [] then Inr tag_anims
               else (case make_anim_with_windows_in_range read_file self (stem (path self)) 0
                            (num_frames content' - 1) (is_fresh self) content'
                            (anim_hashes self) of
                       Inl e \<Rightarrow> Inl e
                     | Inr anim \<Rightarrow> Inr [anim])))"

definition anims :: "'c reader \<Rightarrow> 'c Aseprite \<Rightarrow> error + 'c Anim list" where
  "anims read_file self =
     (case u_anims self of None \<Rightarrow> get_anims read_file self | Some a \<Rightarrow> Inr a)"

text \<open>
  \<^verbatim>\<open>read_aseprite\<close> takes the run context (run\_context.py: the root directory, the
  dotfile and the assistant's configuration) and calls four functions that are not among
  the sources; they are the fields of \<open>ext\<close>. The two \<^verbatim>\<open>setdefault\<close> calls store the
  table of hashes and the dict of the file's stem in the dotfile when they are missing,
  so the run context is returned with the aseprite.
\<close>

record 'cfg RunContext =
  rc_root_dir :: path
  rc_dotfile :: dotfile
  rc_assistant_config :: 'cfg

record ('cfg, 'c) collaborators =
  get_script_processed_time :: "dotfile \<Rightarrow> datetime option"
  get_modified_time :: "path \<Rightarrow> datetime"
  get_anim_tag_color :: "'cfg \<Rightarrow> 'c list"
  get_window_tag_color :: "'cfg \<Rightarrow> 'c list"

definition read_aseprite ::
  "('cfg, 'c) collaborators \<Rightarrow> 'cfg RunContext \<Rightarrow> path \<Rightarrow> datetime option
     \<Rightarrow> 'c Aseprite \<times> 'cfg RunContext" where
  "read_aseprite ext run_context p processed_time' =
     (let processed =
            (case processed_time' of
               None \<Rightarrow> get_script_processed_time ext (rc_dotfile run_context)
             | Some t \<Rightarrow> Some t);
          all_hashes =
            (case ANIM_HASHES_FIELD (rc_dotfile run_context) of None \<Rightarrow> [] | Some d \<Rightarrow> d);
          stored = snd (dict_setdefault all_hashes (stem p) []);
          aseprite =
            \<lparr>path = p,
             modified_time = get_modified_time ext p,
             processed_time = processed,
             anim_tag_colors = get_anim_tag_color ext (rc_assistant_config run_context),
             window_tag_colors = get_window_tag_color ext (rc_assistant_config run_context),
             anim_hashes = Some (HashesOf (stem p)),
             u_content = None,
             u_anims = None\<rparr>
      in (aseprite,
          run_context\<lparr>rc_dotfile := (rc_dotfile run_context)\<lparr>ANIM_HASHES_FIELD := Some stored\<rparr>\<rparr>))"

text \<open>Reading the dict a reference points to: \<open>None\<close> when the dotfile stores none.\<close>

definition hashes_of :: "dotfile \<Rightarrow> hashes_ref \<Rightarrow> (string, string) dict option" where
  "hashes_of dotfile r =
     (case r of HashesOf k \<Rightarrow>
        (case ANIM_HASHES_FIELD dotfile of None \<Rightarrow> None | Some d \<Rightarrow> map_of d k))"

text \<open>
  Modelled from the spec: the code that records an animation's hash (anims.py) is not
  among the sources. The spec's \<^verbatim>\<open>record\<close> overwrites the entry of the animation's name
  with the fingerprint; on the dict an asset holds that is the item assignment
  \<^verbatim>\<open>anim_hashes[name] = fingerprint\<close>, a write to the object the reference points to.
\<close>

definition record_hash :: "dotfile \<Rightarrow> hashes_ref \<Rightarrow> string \<Rightarrow> string \<Rightarrow> dotfile" where
  "record_hash dotfile r anim fingerprint =
     (case r of HashesOf k \<Rightarrow>
        (case ANIM_HASHES_FIELD dotfile of
           None \<Rightarrow> dotfile
         | Some d \<Rightarrow>
             (case map_of d k of
                None \<Rightarrow> dotfile
              | Some hashes \<Rightarrow>
                  dotfile\<lparr>ANIM_HASHES_FIELD :=
                    Some (dict_setitem d k (dict_setitem hashes anim fingerprint))\<rparr>)))"

section \<open>Saving a sprite strip (aseprite\_handling/\_\_init\_\_.py)\<close>

text \<open>
  The package's own module has its classes \<^verbatim>\<open>Anim\<close>, \<^verbatim>\<open>AsepriteTag\<close>,
  \<^verbatim>\<open>AsepriteData\<close> and \<^verbatim>\<open>Aseprite\<close>, and a function \<^verbatim>\<open>get_anims\<close>; the names that
  aseprites.py also uses carry the suffix \<open>_pkg\<close> here.

  \<^verbatim>\<open>AsepriteData.__init__\<close> sets the attributes \<^verbatim>\<open>tags\<close> and \<^verbatim>\<open>anims\<close> and no other.
  The constructor of \<^verbatim>\<open>Aseprite\<close> takes any object as \<^verbatim>\<open>content\<close>: an object that is
  not an \<^verbatim>\<open>AsepriteData\<close> and has an attribute \<^verbatim>\<open>frames\<close> is a \<open>ContentWithFrames\<close>.
\<close>

datatype Anim_pkg = Anim_pkg string

datatype 'c AsepriteTag =
  AsepriteTag (asepritetag_start: int) (asepritetag_end: int) (asepritetag_color: 'c)

definition get_anims_pkg :: "'c AsepriteTag list \<Rightarrow> Anim_pkg list" where
  "get_anims_pkg tags' = []"

datatype ('c, 'f) content_pkg =
  AsepriteData (data_tags: "'c AsepriteTag list") (data_anims: "Anim_pkg list")
| ContentWithFrames (frames: "'f list")

definition AsepriteData_init :: "'c AsepriteTag list option \<Rightarrow> ('c, 'f) content_pkg" where
  "AsepriteData_init tags' =
     (let tags'' = (case tags' of None \<Rightarrow> [] | Some ts \<Rightarrow> ts)
      in AsepriteData tags'' (get_anims_pkg tags''))"

record ('c, 'f) Aseprite_pkg = File +
  u_content_pkg :: "('c, 'f) content_pkg option"

text \<open>
  What the module takes from outside: the folders of paths.py, the parser's tags of the
  file at a path (\<^verbatim>\<open>RawAsepriteFile(contents).get_tags()\<close>) and the matching of a file
  name against a glob pattern. The world it acts on is the files there are and the
  commands \<^verbatim>\<open>subprocess.run\<close> has been given; \<^verbatim>\<open>mkdir\<close> adds no file.
\<close>

record 'c pkg_env =
  ANIMS_FOLDER :: path
  SPRITES_FOLDER :: path
  read_tags :: "path \<Rightarrow> 'c AsepriteTag list"
  glob_match :: "string \<Rightarrow> string \<Rightarrow> bool"

record world =
  files :: "path list"
  commands_run :: "string list"

definition from_path_pkg :: "'c pkg_env \<Rightarrow> path \<Rightarrow> ('c, 'f) content_pkg" where
  "from_path_pkg env p = AsepriteData_init (Some (read_tags env p))"

definition content_pkg :: "'c pkg_env \<Rightarrow> ('c, 'f) Aseprite_pkg \<Rightarrow> ('c, 'f) content_pkg" where
  "content_pkg env self =
     (case u_content_pkg self of None \<Rightarrow> from_path_pkg env (path self) | Some c \<Rightarrow> c)"

definition name_pkg :: "('c, 'f) Aseprite_pkg \<Rightarrow> string" where
  "name_pkg self = stem (path self)"

definition get_sprite_base_name :: "'c pkg_env \<Rightarrow> ('c, 'f) Aseprite_pkg \<Rightarrow> path \<Rightarrow> error + string" where
  "get_sprite_base_name env self root_dir =
     (case relative_to (path self) (joinpath root_dir (ANIMS_FOLDER env)) of
        Inl e \<Rightarrow> Inl e
      | Inr relative_path \<Rightarrow>
          (let subfolders = butlast (parents relative_path);
               path_parts = [name p. p \<leftarrow> rev subfolders] @ [name_pkg self];
               base_name = join ''_'' path_parts
           in Inr base_name))"

definition glob :: "'c pkg_env \<Rightarrow> world \<Rightarrow> path \<Rightarrow> string \<Rightarrow> path list" where
  "glob env w dir pattern =
     [f. f \<leftarrow> files w, parts f \<noteq> [] \<and> butlast (parts f) = parts dir
                        \<and> glob_match env pattern (name f)]"

definition delete_old_save :: "'c pkg_env \<Rightarrow> ('c, 'f) Aseprite_pkg \<Rightarrow> path \<Rightarrow> world \<Rightarrow> (error + unit) \<times> world" where
  "delete_old_save env self root_dir w =
     (case get_sprite_base_name env self root_dir of
        Inl e \<Rightarrow> (Inl e, w)
      | Inr base_name \<Rightarrow>
          (let old_paths = glob env w (joinpath root_dir (SPRITES_FOLDER env))
                             (base_name @ ''_strip*.png'')
           in (Inr (), w\<lparr>files := [f. f \<leftarrow> files w, f \<notin> set old_paths]\<rparr>)))"

definition save :: "'c pkg_env \<Rightarrow> ('c, 'f) Aseprite_pkg \<Rightarrow> path \<Rightarrow> path \<Rightarrow> bool \<Rightarrow> world \<Rightarrow> (error + unit) \<times> world" where
  "save env self root_dir aseprite_path has_small_sprites w =
     (case delete_old_save env self root_dir w of
        (Inl e, w') \<Rightarrow> (Inl e, w')
      | (Inr u, w') \<Rightarrow>
          (case content_pkg env self of
             AsepriteData ts as \<Rightarrow> (Inl AttributeError, w')
           | ContentWithFrames fs \<Rightarrow>
               (let num_frames' = length fs
                in case get_sprite_base_name env self root_dir of
                     Inl e \<Rightarrow> (Inl e, w')
                   | Inr base_name \<Rightarrow>
                       (let dest_name = base_name @ ''_strip'' @ str_nat num_frames' @ ''.png'';
                            dest = joinpath (joinpath root_dir (SPRITES_FOLDER env))
                                     (Path dest_name);
                            export_command =
                              join '' ''
                                [[CHR 0x22] @ as_posix aseprite_path @ [CHR 0x22],
                                 ''-b'',
                                 [CHR 0x22] @ as_posix (path self) @ [CHR 0x22],
                                 ''--scale '' @ str_nat ((if has_small_sprites then 1 else 0) + 1),
                                 ''--sheet '' @ [CHR 0x22] @ as_posix dest @ [CHR 0x22]]
                        in (Inr (), w'\<lparr>commands_run := commands_run w' @ [export_command]\<rparr>)))))"

section \<open>Observations and example inputs\<close>

text \<open>
  Whether the dependencies recorded for a key contain a path, and the dotfile after a
  sequence of calls of \<^verbatim>\<open>update_dotfile_injection_clients\<close>.
\<close>

definition depends_on :: "(string, string list) dict \<Rightarrow> string \<Rightarrow> string \<Rightarrow> bool" where
  "depends_on clients str_path key =
     (case map_of clients key of None \<Rightarrow> False | Some deps \<Rightarrow> str_path \<in> set deps)"

fun update_all :: "dotfile \<Rightarrow> (path \<times> path list) list \<Rightarrow> dotfile" where
  "update_all dotfile [] = dotfile"
| "update_all dotfile ((clientscript, dependencies) # calls) =
     update_all (update_dotfile_injection_clients dotfile clientscript dependencies) calls"

text \<open>
  The components a string is parsed into are not empty, are not \<^verbatim>\<open>.\<close> and hold no slash.
\<close>

definition components_ok :: "string list \<Rightarrow> bool" where
  "components_ok xs = (\<forall>x \<in> set xs. x \<noteq> [] \<and> x \<noteq> ''.'' \<and> CHR ''/'' \<notin> set x)"

text \<open>
  A string is the posix rendering of a path when \<^verbatim>\<open>Path(s).as_posix()\<close> gives it back,
  and a path object is the path of its own rendering. The keys that
  \<^verbatim>\<open>update_dotfile_injection_clients\<close> writes are renderings; a table read from a file
  written by hand may have other keys, such as \<^verbatim>\<open>scripts//attack.gml\<close>.
\<close>

definition is_posix_rendering :: "string \<Rightarrow> bool" where
  "is_posix_rendering s = (as_posix (Path s) = s)"

definition posix_keys :: "dotfile \<Rightarrow> bool" where
  "posix_keys dotfile =
     (case INJECT_CLIENTS_FIELD dotfile of
        None \<Rightarrow> True
      | Some clients \<Rightarrow> list_all is_posix_rendering (dict_keys clients))"

text \<open>
  The aseprite with the same fields that was given a content: the content \<open>c\<close> with
  the tags \<open>ts\<close>.
\<close>

definition with_tags :: "'c Aseprite \<Rightarrow> 'c AsepriteFileContent \<Rightarrow> 'c Tag list \<Rightarrow> 'c Aseprite" where
  "with_tags self c ts =
     self\<lparr>u_content := Some (c\<lparr>file_data := (file_data c)\<lparr>get_tags := ts\<rparr>\<rparr>)\<rparr>"

text \<open>
  An asset for examples: \<^verbatim>\<open>anims/A.ase\<close> with the animation color red and the window
  color blue, given a content with a number of frames and a list of tags; and a reader
  that finds a file of five frames and no tags at every path.
\<close>

definition example_reader :: "string reader" where
  "example_reader p = Inr \<lparr>get_num_frames = 5, get_tags = []\<rparr>"

definition example_content :: "int \<Rightarrow> string Tag list \<Rightarrow> string AsepriteFileContent" where
  "example_content n ts = \<lparr>file_data = \<lparr>get_num_frames = n, get_tags = ts\<rparr>\<rparr>"

definition example_aseprite :: "int \<Rightarrow> string Tag list \<Rightarrow> string Aseprite" where
  "example_aseprite n ts =
     \<lparr>path = PosixPath ''anims/A.ase'', modified_time = 10, processed_time = None,
      anim_tag_colors = [''red''], window_tag_colors = [''blue''], anim_hashes = None,
      u_content = Some (example_content n ts),
      u_anims = None\<rparr>"

text \<open>
  Two assets for examples, \<^verbatim>\<open>anims/a/idle.ase\<close> and \<^verbatim>\<open>anims/b/idle.ase\<close>, read one
  after the other into a run context whose dotfile is empty.
\<close>

definition example_collaborators :: "(unit, string) collaborators" where
  "example_collaborators =
     \<lparr>get_script_processed_time = (\<lambda>dotfile. None),
      get_modified_time = (\<lambda>p. 10),
      get_anim_tag_color = (\<lambda>config. [''red'']),
      get_window_tag_color = (\<lambda>config. [''blue''])\<rparr>"

definition example_context :: "unit RunContext" where
  "example_context =
     \<lparr>rc_root_dir = PosixPath ''/project'',
      rc_dotfile = \<lparr>PROCESSED_TIME_FIELD = None, SEEN_FILES_FIELD = Absent,
                    INJECT_CLIENTS_FIELD = None, ANIM_HASHES_FIELD = None\<rparr>,
      rc_assistant_config = ()\<rparr>"

definition first_read :: "string Aseprite \<times> unit RunContext" where
  "first_read = read_aseprite example_collaborators example_context (PosixPath ''anims/a/idle.ase'') None"

definition second_read :: "string Aseprite \<times> unit RunContext" where
  "second_read = read_aseprite example_collaborators (snd first_read) (PosixPath ''anims/b/idle.ase'') None"

text \<open>
  A project for examples: the folders \<^verbatim>\<open>anims\<close> and \<^verbatim>\<open>sprites\<close>, a parser that finds
  no tags, and the matching of file names against the one pattern \<^verbatim>\<open>idle_strip*.png\<close>.
\<close>

definition example_env :: "string pkg_env" where
  "example_env =
     \<lparr>ANIMS_FOLDER = PosixPath ''anims'',
      SPRITES_FOLDER = PosixPath ''sprites'',
      read_tags = (\<lambda>p. []),
      glob_match = (\<lambda>pattern file_name.
         pattern = ''idle_strip*.png''
         \<and> 14 \<le> length file_name
         \<and> take 10 file_name = ''idle_strip''
         \<and> drop (length file_name - 4) file_name = ''.png'')\<rparr>"

definition example_world :: world where
  "example_world =
     \<lparr>files = [PosixPath ''/project/anims/idle.ase'',
               PosixPath ''/project/sprites/idle_strip2.png'',
               PosixPath ''/project/sprites/walk_strip6.png''],
      commands_run = []\<rparr>"

definition example_asset :: "(string, nat) content_pkg option \<Rightarrow> (string, nat) Aseprite_pkg" where
  "example_asset c =
     \<lparr>path = PosixPath ''/project/anims/idle.ase'', modified_time = 10, processed_time = None,
      u_content_pkg = c\<rparr>"

section \<open>Dicts and paths\<close>

lemma map_of_dict_setitem: "map_of (dict_setitem d k v) = (map_of d)(k \<mapsto> v)"
  by (induction d) (auto simp: fun_eq_iff)

lemma map_of_dict_pop: "map_of (dict_pop d k) = (map_of d)(k := None)"
  by (induction d) (auto simp: dict_pop_def fun_eq_iff)

lemma dict_contains_iff: "dict_contains d k \<longleftrightarrow> k \<in> set (dict_keys d)"
  by (simp add: dict_contains_def dict_keys_def map_of_eq_None_iff)

lemma as_posix_eq_iff: "as_posix p = as_posix q \<longleftrightarrow> p = q"
  by (cases p; cases q) simp

section \<open>Freshness\<close>

lemma get_processed_time_seen:
  "get_processed_time dotfile p =
     (if as_posix p \<in> seen_paths dotfile then PROCESSED_TIME_FIELD dotfile else None)"
  by (simp add: get_processed_time_def seen_paths_def split: field.split)

text \<open>
  C1. The processed time of a path is the dotfile's processed time when the path is among
  the seen files and \<open>None\<close> otherwise. With \<open>last_run_time\<close> the processed time the
  dotfile records, a path with a modified time is stale if and only if the path is not
  among the seen files or its modified time is greater than \<open>last_run_time\<close>. (A dotfile
  that records no processed time makes every path stale.)
\<close>

theorem staleness_biconditional:
  "get_processed_time dotfile p =
     (if as_posix p \<in> seen_paths dotfile then PROCESSED_TIME_FIELD dotfile else None)
   \<and> (PROCESSED_TIME_FIELD dotfile = Some last_run_time \<longrightarrow>
        (is_stale dotfile p modified \<longleftrightarrow>
           as_posix p \<notin> seen_paths dotfile \<or> last_run_time < modified))
   \<and> (PROCESSED_TIME_FIELD dotfile = None \<longrightarrow> is_stale dotfile p modified)"
  by (simp add: get_processed_time_seen is_stale_def is_fresh_def)

theorem staleness_biconditional_witness:
  "is_stale \<lparr>PROCESSED_TIME_FIELD = Some 100, SEEN_FILES_FIELD = Present [''anims/idle.ase''],
             INJECT_CLIENTS_FIELD = None, ANIM_HASHES_FIELD = None\<rparr> (PosixPath ''anims/idle.ase'') 150
   \<and> \<not> is_stale \<lparr>PROCESSED_TIME_FIELD = Some 100, SEEN_FILES_FIELD = Present [''anims/idle.ase''],
             INJECT_CLIENTS_FIELD = None, ANIM_HASHES_FIELD = None\<rparr> (PosixPath ''anims/idle.ase'') 100
   \<and> is_stale \<lparr>PROCESSED_TIME_FIELD = Some 100, SEEN_FILES_FIELD = Present [''anims/idle.ase''],
             INJECT_CLIENTS_FIELD = None, ANIM_HASHES_FIELD = None\<rparr> (PosixPath ''anims/walk.ase'') 50"
  using
    staleness_biconditional [of "\<lparr>PROCESSED_TIME_FIELD = Some 100,
      SEEN_FILES_FIELD = Present [''anims/idle.ase''],
      INJECT_CLIENTS_FIELD = None, ANIM_HASHES_FIELD = None\<rparr>" "PosixPath ''anims/idle.ase''" 100 150]
    staleness_biconditional [of "\<lparr>PROCESSED_TIME_FIELD = Some 100,
      SEEN_FILES_FIELD = Present [''anims/idle.ase''],
      INJECT_CLIENTS_FIELD = None, ANIM_HASHES_FIELD = None\<rparr>" "PosixPath ''anims/idle.ase''" 100 100]
    staleness_biconditional [of "\<lparr>PROCESSED_TIME_FIELD = Some 100,
      SEEN_FILES_FIELD = Present [''anims/idle.ase''],
      INJECT_CLIENTS_FIELD = None, ANIM_HASHES_FIELD = None\<rparr>" "PosixPath ''anims/walk.ase''" 100 50]
  by (simp add: seen_paths_def)

text \<open>
  C9. After \<^verbatim>\<open>update_dotfile_after_saving\<close> the seen files are exactly the posix strings
  of the paths of the files passed in, in their order, and the processed time is the
  given timestamp; so the processed time of a path is the timestamp when the path is of
  one of the files passed in, and \<open>None\<close> for every other path, whatever was recorded
  as seen before.
\<close>

theorem seen_files_overwrite:
  "SEEN_FILES_FIELD (update_dotfile_after_saving dotfile now seen) =
     Present (map (\<lambda>f. as_posix (path f)) seen)
   \<and> PROCESSED_TIME_FIELD (update_dotfile_after_saving dotfile now seen) = Some now
   \<and> get_processed_time (update_dotfile_after_saving dotfile now seen) p =
       (if p \<in> path ` set seen then Some now else None)"
proof -
  have "as_posix p \<in> (\<lambda>f. as_posix (path f)) ` set seen \<longleftrightarrow> p \<in> path ` set seen"
    by (auto simp: as_posix_eq_iff image_iff)
  then show ?thesis
    by (simp add: update_dotfile_after_saving_def get_processed_time_def)
qed

text \<open>
  C10. On a dotfile with no table of injection clients, \<^verbatim>\<open>get_clients_for_injection\<close>
  returns the empty list for every path, and raises nothing; on a dotfile whose seen
  files are missing or null, \<^verbatim>\<open>get_processed_time\<close> returns \<open>None\<close> for every path.
\<close>

theorem reverse_query_total_on_missing_state:
  "get_clients_for_injection (dotfile\<lparr>INJECT_CLIENTS_FIELD := None\<rparr>) injectionscript = Inr []
   \<and> get_processed_time (dotfile\<lparr>SEEN_FILES_FIELD := Absent\<rparr>) p = None
   \<and> get_processed_time (dotfile\<lparr>SEEN_FILES_FIELD := Null\<rparr>) p = None"
  by (simp add: get_clients_for_injection_def get_processed_time_def)

section \<open>Paths are the paths of their renderings\<close>

lemma split_on_free: "x \<in> set (split_on c s) \<Longrightarrow> c \<notin> set x"
proof (induction s arbitrary: x)
  case Nil
  then show ?case by simp
next
  case (Cons y s)
  then show ?case
    by (cases "split_on c s") (auto split: if_splits)
qed

lemma split_on_not_Nil: "split_on c s \<noteq> []"
  by (induction s) (auto split: list.splits)

lemma split_on_single: "c \<notin> set x \<Longrightarrow> split_on c x = [x]"
  by (induction x) auto

lemma split_on_append: "c \<notin> set x \<Longrightarrow> split_on c (x @ c # s) = x # split_on c s"
  by (induction x) auto

lemma split_on_join:
  "xs \<noteq> [] \<Longrightarrow> \<forall>x \<in> set xs. c \<notin> set x \<Longrightarrow> split_on c (join [c] xs) = xs"
proof (induction "[c]" xs rule: join.induct)
  case 1
  then show ?case by simp
next
  case (2 x)
  then show ?case by (simp add: split_on_single)
next
  case (3 x y ys)
  then show ?case by (simp add: split_on_append)
qed

lemma join_components_hd:
  "components_ok xs \<Longrightarrow> dropWhile (\<lambda>c. c = CHR ''/'') (join ''/'' xs) = join ''/'' xs"
proof (cases xs)
  case Nil
  then show ?thesis by simp
next
  case (Cons x ys)
  assume "components_ok xs"
  with Cons obtain a as where x: "x = a # as" "a \<noteq> CHR ''/''"
    by (cases x) (auto simp: components_ok_def)
  with Cons show ?thesis
    by (cases ys) simp_all
qed

lemma filter_split_join:
  assumes "components_ok xs"
  shows "filter (\<lambda>x. x \<noteq> [] \<and> x \<noteq> ''.'') (split_on (CHR ''/'') (join ''/'' xs)) = xs"
proof (cases "xs = []")
  case True
  then show ?thesis by simp
next
  case False
  with assms have "split_on (CHR ''/'') (join ''/'' xs) = xs"
    using split_on_join [of xs "CHR ''/''"] by (simp add: components_ok_def)
  with assms show ?thesis
    by (simp add: components_ok_def filter_id_conv)
qed

lemma parse_parts_relative:
  "components_ok xs \<Longrightarrow> parse_parts (join ''/'' xs) = xs"
  by (simp add: parse_parts_def Let_def join_components_hd filter_split_join)

lemma parse_parts_root:
  assumes "components_ok xs"
  shows "parse_parts (''/'' @ join ''/'' xs) = ''/'' # xs"
    and "parse_parts (''//'' @ join ''/'' xs) = ''//'' # xs"
  using assms by (simp_all add: parse_parts_def Let_def join_components_hd filter_split_join)

lemma parse_parts_shape:
  "\<exists>xs. components_ok xs \<and> (parse_parts s = xs \<or> parse_parts s = ''/'' # xs
                             \<or> parse_parts s = ''//'' # xs)"
proof -
  have "components_ok (filter (\<lambda>x. x \<noteq> [] \<and> x \<noteq> ''.'') (split_on (CHR ''/'') u))" for u
    using split_on_free [of _ "CHR ''/''" u] by (auto simp: components_ok_def)
  then show ?thesis
    by (auto simp: parse_parts_def Let_def)
qed

lemma of_parts_relative:
  "components_ok xs \<Longrightarrow> of_parts xs = (if xs = [] then PosixPath ''.'' else PosixPath (join ''/'' xs))"
  by (cases xs) (auto simp: of_parts_def components_ok_def)

lemma parse_parts_of_parts:
  assumes "components_ok xs"
  shows "parse_parts (as_posix (of_parts xs)) = xs"
    and "parse_parts (as_posix (of_parts (''/'' # xs))) = ''/'' # xs"
    and "parse_parts (as_posix (of_parts (''//'' # xs))) = ''//'' # xs"
proof -
  show "parse_parts (as_posix (of_parts xs)) = xs"
  proof (cases "xs = []")
    case True
    then show ?thesis by (simp add: of_parts_def parse_parts_def)
  next
    case False
    with assms show ?thesis
      by (simp add: of_parts_relative parse_parts_relative)
  qed
  show "parse_parts (as_posix (of_parts (''/'' # xs))) = ''/'' # xs"
    using parse_parts_root(1) [OF assms] by (simp add: of_parts_def)
  show "parse_parts (as_posix (of_parts (''//'' # xs))) = ''//'' # xs"
    using parse_parts_root(2) [OF assms] by (simp add: of_parts_def)
qed

lemma parts_Path: "parts (Path s) = parse_parts s"
  using parse_parts_shape [of s] by (auto simp: parts_def Path_def parse_parts_of_parts)

lemma Path_as_posix_Path: "Path (as_posix (Path s)) = Path s"
  using parts_Path [of s] by (simp add: Path_def parts_def)

lemma is_posix_rendering_as_posix_Path: "is_posix_rendering (as_posix (Path s))"
  by (simp add: is_posix_rendering_def Path_as_posix_Path)

section \<open>The table of dependencies\<close>

lemma clients_loop_filter:
  "set keys \<subseteq> set (dict_keys clients) \<Longrightarrow>
   clients_loop clients str_path keys acc =
     Inr (acc @ map Path (filter (depends_on clients str_path) keys))"
proof (induction keys arbitrary: acc)
  case Nil
  then show ?case by simp
next
  case (Cons key keys)
  from Cons.prems have "key \<in> set (dict_keys clients)" by simp
  then obtain deps where deps: "map_of clients key = Some deps"
    using dict_contains_iff [of clients key] by (auto simp: dict_contains_def)
  from Cons.prems have sub: "set keys \<subseteq> set (dict_keys clients)" by simp
  show ?case
    using deps Cons.IH [OF sub] by (simp add: dict_getitem_def depends_on_def)
qed

lemma get_clients_for_injection_eq:
  "get_clients_for_injection dotfile d =
     Inr (case INJECT_CLIENTS_FIELD dotfile of
            None \<Rightarrow> []
          | Some clients \<Rightarrow>
              map Path (filter (depends_on clients (as_posix d)) (dict_keys clients)))"
  by (simp add: get_clients_for_injection_def clients_loop_filter split: option.split)

lemma set_get_clients:
  assumes "get_clients_for_injection dotfile d = Inr cs"
  shows "set cs = {Path k |k. \<exists>deps. recorded_dependencies dotfile k = Some deps
                               \<and> as_posix d \<in> set deps}"
proof (cases "INJECT_CLIENTS_FIELD dotfile")
  case None
  with assms show ?thesis
    by (simp add: get_clients_for_injection_eq recorded_dependencies_def)
next
  case (Some clients)
  have keys: "k \<in> set (dict_keys clients) \<longleftrightarrow> map_of clients k \<noteq> None" for k
    using dict_contains_iff [of clients k] by (simp add: dict_contains_def)
  have "set cs = Path ` {k \<in> set (dict_keys clients). depends_on clients (as_posix d) k}"
    using assms Some by (auto simp: get_clients_for_injection_eq)
  also have "{k \<in> set (dict_keys clients). depends_on clients (as_posix d) k} =
      {k. \<exists>deps. map_of clients k = Some deps \<and> as_posix d \<in> set deps}"
    using keys by (auto simp: depends_on_def split: option.splits)
  finally show ?thesis
    using Some by (auto simp: recorded_dependencies_def)
qed

lemma posix_keys_iff:
  "posix_keys dotfile \<longleftrightarrow>
     (\<forall>k. recorded_dependencies dotfile k \<noteq> None \<longrightarrow> is_posix_rendering k)"
proof (cases "INJECT_CLIENTS_FIELD dotfile")
  case None
  then show ?thesis
    by (simp add: posix_keys_def recorded_dependencies_def)
next
  case (Some clients)
  have "k \<in> set (dict_keys clients) \<longleftrightarrow> map_of clients k \<noteq> None" for k
    using dict_contains_iff [of clients k] by (simp add: dict_contains_def)
  with Some show ?thesis
    by (auto simp: posix_keys_def recorded_dependencies_def list_all_iff)
qed

lemma Path_of_rendering:
  "is_posix_rendering k \<Longrightarrow> Path k = c \<longleftrightarrow> k = as_posix c"
  unfolding is_posix_rendering_def using as_posix_eq_iff [of "Path k" c] by auto

lemma set_get_clients_posix:
  assumes "get_clients_for_injection dotfile d = Inr cs" and "posix_keys dotfile"
  shows "set cs = {c. \<exists>deps. recorded_dependencies dotfile (as_posix c) = Some deps
                           \<and> as_posix d \<in> set deps}"
proof -
  have r: "is_posix_rendering k" if "recorded_dependencies dotfile k = Some deps" for k deps
    using assms(2) that by (simp add: posix_keys_iff)
  show ?thesis
    unfolding set_get_clients [OF assms(1)]
  proof (intro set_eqI iffI)
    fix c
    assume "c \<in> {Path k |k. \<exists>deps. recorded_dependencies dotfile k = Some deps
                               \<and> as_posix d \<in> set deps}"
    then obtain k deps where k: "c = Path k" "recorded_dependencies dotfile k = Some deps"
        "as_posix d \<in> set deps"
      by blast
    from r [OF k(2)] k(1) have "k = as_posix c"
      using Path_of_rendering by blast
    with k(2,3) show "c \<in> {c. \<exists>deps. recorded_dependencies dotfile (as_posix c) = Some deps
                           \<and> as_posix d \<in> set deps}"
      by auto
  next
    fix c
    assume "c \<in> {c. \<exists>deps. recorded_dependencies dotfile (as_posix c) = Some deps
                           \<and> as_posix d \<in> set deps}"
    then obtain deps where deps: "recorded_dependencies dotfile (as_posix c) = Some deps"
        "as_posix d \<in> set deps"
      by blast
    from r [OF deps(1)] have "Path (as_posix c) = c"
      using Path_of_rendering by blast
    with deps show "c \<in> {Path k |k. \<exists>deps. recorded_dependencies dotfile k = Some deps
                               \<and> as_posix d \<in> set deps}"
      by (auto intro!: exI [of _ "as_posix c"])
  qed
qed

lemma recorded_after_update:
  "recorded_dependencies (update_dotfile_injection_clients dotfile c D) =
     (if D \<noteq> [] then (recorded_dependencies dotfile)(as_posix c \<mapsto> map as_posix D)
      else (recorded_dependencies dotfile)(as_posix c := None))"
  by (auto simp: update_dotfile_injection_clients_def recorded_dependencies_def Let_def
      map_of_dict_setitem map_of_dict_pop dict_contains_def fun_eq_iff split: option.splits)

lemma posix_keys_update:
  assumes "posix_keys dotfile" and "D \<noteq> [] \<longrightarrow> Path (as_posix c) = c"
  shows "posix_keys (update_dotfile_injection_clients dotfile c D)"
proof -
  have "is_posix_rendering (as_posix c)" if "D \<noteq> []"
    using assms(2) that by (simp add: is_posix_rendering_def)
  with assms(1) show ?thesis
    by (auto simp: posix_keys_iff recorded_after_update split: if_splits)
qed

lemma posix_keys_update_all:
  "posix_keys dotfile \<Longrightarrow> list_all (\<lambda>call. Path (as_posix (fst call)) = fst call) calls \<Longrightarrow>
   posix_keys (update_all dotfile calls)"
proof (induction calls arbitrary: dotfile)
  case Nil
  then show ?case by simp
next
  case (Cons call calls)
  obtain c D where call: "call = (c, D)" by (cases call)
  with Cons.prems have "posix_keys (update_dotfile_injection_clients dotfile c D)"
    by (simp add: posix_keys_update)
  with Cons.IH Cons.prems call show ?case by simp
qed

lemma update_all_no_empty:
  "(\<forall>k. recorded_dependencies dotfile k \<noteq> Some []) \<Longrightarrow>
   recorded_dependencies (update_all dotfile calls) k \<noteq> Some []"
proof (induction calls arbitrary: dotfile)
  case Nil
  then show ?case by simp
next
  case (Cons call calls)
  obtain c D where call: "call = (c, D)" by (cases call)
  have "\<forall>k. recorded_dependencies (update_dotfile_injection_clients dotfile c D) k \<noteq> Some []"
    using Cons.prems by (simp add: recorded_after_update)
  then show ?case
    using Cons.IH call by simp
qed

text \<open>
  C4. \<^verbatim>\<open>get_clients_for_injection\<close> returns exactly the paths of the keys whose recorded
  list of dependencies contains the queried path; when the keys of the table are posix
  renderings of paths, these are exactly the clients whose recorded list contains the
  queried path. After \<^verbatim>\<open>update_dotfile_injection_clients\<close> records a client with the
  dependencies \<open>D\<close>, the query for every \<open>d\<close> in \<open>D\<close> includes the client; after the
  client is then recorded with no dependencies, the query for every path excludes it,
  on a table whose keys are posix renderings. Every update with a path object keeps the
  keys posix renderings, and the table built by updates from a dotfile with no table has
  only such keys. Every path \<^verbatim>\<open>Path(s)\<close> is the path of its own rendering.
\<close>

theorem reverse_query_forward_map:
  "(\<exists>cs. get_clients_for_injection dotfile d = Inr cs
        \<and> set cs = {Path k |k. \<exists>deps. recorded_dependencies dotfile k = Some deps
                                   \<and> as_posix d \<in> set deps})
   \<and> (posix_keys dotfile \<longrightarrow>
        (\<exists>cs. get_clients_for_injection dotfile d = Inr cs
            \<and> set cs = {c. \<exists>deps. recorded_dependencies dotfile (as_posix c) = Some deps
                                 \<and> as_posix d \<in> set deps}))
   \<and> (Path (as_posix c) = c \<longrightarrow> d \<in> set D \<longrightarrow>
        (\<exists>cs. get_clients_for_injection (update_dotfile_injection_clients dotfile c D) d = Inr cs
            \<and> c \<in> set cs))
   \<and> (posix_keys dotfile \<longrightarrow>
        (\<exists>cs. get_clients_for_injection
                (update_dotfile_injection_clients
                   (update_dotfile_injection_clients dotfile c D) c []) d = Inr cs
            \<and> c \<notin> set cs))
   \<and> (posix_keys dotfile \<longrightarrow> Path (as_posix c) = c \<longrightarrow>
        posix_keys (update_dotfile_injection_clients dotfile c D))
   \<and> (list_all (\<lambda>call. Path (as_posix (fst call)) = fst call) calls \<longrightarrow>
        posix_keys (update_all (dotfile\<lparr>INJECT_CLIENTS_FIELD := None\<rparr>) calls))
   \<and> Path (as_posix (Path s)) = Path s"
proof (intro conjI impI)
  show "\<exists>cs. get_clients_for_injection dotfile d = Inr cs
        \<and> set cs = {Path k |k. \<exists>deps. recorded_dependencies dotfile k = Some deps
                                   \<and> as_posix d \<in> set deps}"
    using set_get_clients [of dotfile d] by (simp add: get_clients_for_injection_eq)
next
  assume "posix_keys dotfile"
  then show "\<exists>cs. get_clients_for_injection dotfile d = Inr cs
            \<and> set cs = {c. \<exists>deps. recorded_dependencies dotfile (as_posix c) = Some deps
                                 \<and> as_posix d \<in> set deps}"
    using set_get_clients_posix [of dotfile d] by (simp add: get_clients_for_injection_eq)
next
  assume c: "Path (as_posix c) = c" and d: "d \<in> set D"
  let ?dotfile = "update_dotfile_injection_clients dotfile c D"
  obtain cs where cs: "get_clients_for_injection ?dotfile d = Inr cs"
    by (simp add: get_clients_for_injection_eq)
  from d have "D \<noteq> []" by auto
  then have "recorded_dependencies ?dotfile (as_posix c) = Some (map as_posix D)"
    by (simp add: recorded_after_update)
  moreover from d have "as_posix d \<in> set (map as_posix D)" by simp
  ultimately have "c \<in> set cs"
    unfolding set_get_clients [OF cs] using c by (auto intro!: exI [of _ "as_posix c"])
  with cs show "\<exists>cs. get_clients_for_injection ?dotfile d = Inr cs \<and> c \<in> set cs"
    by blast
next
  assume keys: "posix_keys dotfile"
  let ?dotfile =
    "update_dotfile_injection_clients (update_dotfile_injection_clients dotfile c D) c []"
  obtain cs where cs: "get_clients_for_injection ?dotfile d = Inr cs"
    by (simp add: get_clients_for_injection_eq)
  have sub: "recorded_dependencies ?dotfile = (recorded_dependencies dotfile)(as_posix c := None)"
    by (simp add: recorded_after_update)
  then have "posix_keys ?dotfile"
    using keys by (simp add: posix_keys_iff)
  moreover have "recorded_dependencies ?dotfile (as_posix c) = None"
    using sub by simp
  ultimately have "c \<notin> set cs"
    using set_get_clients_posix [OF cs] by simp
  with cs show "\<exists>cs. get_clients_for_injection ?dotfile d = Inr cs \<and> c \<notin> set cs"
    by blast
next
  assume "posix_keys dotfile" and "Path (as_posix c) = c"
  then show "posix_keys (update_dotfile_injection_clients dotfile c D)"
    by (simp add: posix_keys_update)
next
  assume "list_all (\<lambda>call. Path (as_posix (fst call)) = fst call) calls"
  moreover have "posix_keys (dotfile\<lparr>INJECT_CLIENTS_FIELD := None\<rparr>)"
    by (simp add: posix_keys_def)
  ultimately show "posix_keys (update_all (dotfile\<lparr>INJECT_CLIENTS_FIELD := None\<rparr>) calls)"
    by (rule posix_keys_update_all [rotated])
next
  show "Path (as_posix (Path s)) = Path s"
    by (rule Path_as_posix_Path)
qed

lemma renderings_example:
  "Path ''attack.gml'' = PosixPath ''attack.gml''"
  "Path ''idle.gml'' = PosixPath ''idle.gml''"
  "Path ''scripts//attack.gml'' = PosixPath ''scripts/attack.gml''"
  by code_simp+

theorem reverse_query_forward_map_witness:
  "posix_keys \<lparr>PROCESSED_TIME_FIELD = None, SEEN_FILES_FIELD = Absent,
               INJECT_CLIENTS_FIELD = Some [(''idle.gml'', [''combo_lib''])],
               ANIM_HASHES_FIELD = None\<rparr>
   \<and> Path (as_posix (PosixPath ''attack.gml'')) = PosixPath ''attack.gml''
   \<and> PosixPath ''combo_lib'' \<in> set [PosixPath ''combo_lib'']
   \<and> (\<exists>cs. get_clients_for_injection
             (update_dotfile_injection_clients
                \<lparr>PROCESSED_TIME_FIELD = None, SEEN_FILES_FIELD = Absent,
                 INJECT_CLIENTS_FIELD = Some [(''idle.gml'', [''combo_lib''])],
                 ANIM_HASHES_FIELD = None\<rparr>
                (PosixPath ''attack.gml'') [PosixPath ''combo_lib'']) (PosixPath ''combo_lib'')
             = Inr cs
          \<and> PosixPath ''attack.gml'' \<in> set cs)
   \<and> (\<exists>cs. get_clients_for_injection
             (update_dotfile_injection_clients
                (update_dotfile_injection_clients
                   \<lparr>PROCESSED_TIME_FIELD = None, SEEN_FILES_FIELD = Absent,
                    INJECT_CLIENTS_FIELD = Some [(''idle.gml'', [''combo_lib''])],
                    ANIM_HASHES_FIELD = None\<rparr>
                   (PosixPath ''attack.gml'') [PosixPath ''combo_lib''])
                (PosixPath ''attack.gml'') []) (PosixPath ''combo_lib'') = Inr cs
          \<and> PosixPath ''attack.gml'' \<notin> set cs)"
proof -
  let ?dotfile = "\<lparr>PROCESSED_TIME_FIELD = None, SEEN_FILES_FIELD = Absent,
               INJECT_CLIENTS_FIELD = Some [(''idle.gml'', [''combo_lib''])],
               ANIM_HASHES_FIELD = None\<rparr>"
  have keys: "posix_keys ?dotfile"
    by (simp add: posix_keys_def dict_keys_def is_posix_rendering_def renderings_example)
  have c: "Path (as_posix (PosixPath ''attack.gml'')) = PosixPath ''attack.gml''"
    by (simp add: renderings_example)
  have d: "PosixPath ''combo_lib'' \<in> set [PosixPath ''combo_lib'']"
    by simp
  show ?thesis
    using keys c d
      reverse_query_forward_map [of ?dotfile "PosixPath ''combo_lib''" "PosixPath ''attack.gml''"
        "[PosixPath ''combo_lib'']"]
    by blast
qed

text \<open>
  C5. An update with the empty list leaves no entry for the client. An update with a
  non-empty list makes the client's entry exactly the new list, whatever was recorded
  before. The entries of the other clients stay as they are. So an update keeps a table
  free of empty lists free of them, and the table built by any sequence of updates from
  a dotfile with no table has no entry with an empty list.
\<close>

theorem dependency_table_entry_invariant:
  "recorded_dependencies (update_dotfile_injection_clients dotfile c []) (as_posix c) = None
   \<and> (D \<noteq> [] \<longrightarrow>
        recorded_dependencies (update_dotfile_injection_clients dotfile c D) (as_posix c) =
          Some (map as_posix D))
   \<and> (k \<noteq> as_posix c \<longrightarrow>
        recorded_dependencies (update_dotfile_injection_clients dotfile c D) k =
          recorded_dependencies dotfile k)
   \<and> ((\<forall>k. recorded_dependencies dotfile k \<noteq> Some []) \<longrightarrow>
        (\<forall>k. recorded_dependencies (update_dotfile_injection_clients dotfile c D) k \<noteq> Some []))
   \<and> (\<forall>k. recorded_dependencies
             (update_all (dotfile\<lparr>INJECT_CLIENTS_FIELD := None\<rparr>) calls) k \<noteq> Some [])"
proof -
  have "\<forall>k. recorded_dependencies (dotfile\<lparr>INJECT_CLIENTS_FIELD := None\<rparr>) k \<noteq> Some []"
    by (simp add: recorded_dependencies_def)
  then have "\<forall>k. recorded_dependencies
             (update_all (dotfile\<lparr>INJECT_CLIENTS_FIELD := None\<rparr>) calls) k \<noteq> Some []"
    using update_all_no_empty by blast
  then show ?thesis
    by (simp add: recorded_after_update)
qed

theorem dependency_table_entry_invariant_witness:
  "[PosixPath ''other_lib''] \<noteq> []
   \<and> ''idle.gml'' \<noteq> as_posix (PosixPath ''attack.gml'')
   \<and> (\<forall>k. recorded_dependencies
             \<lparr>PROCESSED_TIME_FIELD = None, SEEN_FILES_FIELD = Absent,
              INJECT_CLIENTS_FIELD = Some [(''attack.gml'', [''combo_lib'', ''hit_lib'']),
                                           (''idle.gml'', [''combo_lib''])],
              ANIM_HASHES_FIELD = None\<rparr> k \<noteq> Some [])
   \<and> recorded_dependencies
        (update_dotfile_injection_clients
           \<lparr>PROCESSED_TIME_FIELD = None, SEEN_FILES_FIELD = Absent,
            INJECT_CLIENTS_FIELD = Some [(''attack.gml'', [''combo_lib'', ''hit_lib'']),
                                         (''idle.gml'', [''combo_lib''])],
            ANIM_HASHES_FIELD = None\<rparr> (PosixPath ''attack.gml'') [PosixPath ''other_lib''])
        ''attack.gml'' = Some [''other_lib'']
   \<and> recorded_dependencies
        (update_dotfile_injection_clients
           \<lparr>PROCESSED_TIME_FIELD = None, SEEN_FILES_FIELD = Absent,
            INJECT_CLIENTS_FIELD = Some [(''attack.gml'', [''combo_lib'', ''hit_lib'']),
                                         (''idle.gml'', [''combo_lib''])],
            ANIM_HASHES_FIELD = None\<rparr> (PosixPath ''attack.gml'') [PosixPath ''other_lib''])
        ''idle.gml'' = Some [''combo_lib'']
   \<and> (\<forall>k. recorded_dependencies
        (update_dotfile_injection_clients
           \<lparr>PROCESSED_TIME_FIELD = None, SEEN_FILES_FIELD = Absent,
            INJECT_CLIENTS_FIELD = Some [(''attack.gml'', [''combo_lib'', ''hit_lib'']),
                                         (''idle.gml'', [''combo_lib''])],
            ANIM_HASHES_FIELD = None\<rparr> (PosixPath ''attack.gml'') [PosixPath ''other_lib'']) k \<noteq> Some [])"
proof -
  let ?dotfile = "\<lparr>PROCESSED_TIME_FIELD = None, SEEN_FILES_FIELD = Absent,
            INJECT_CLIENTS_FIELD = Some [(''attack.gml'', [''combo_lib'', ''hit_lib'']),
                                         (''idle.gml'', [''combo_lib''])],
            ANIM_HASHES_FIELD = None\<rparr>"
  have inv: "\<forall>k. recorded_dependencies ?dotfile k \<noteq> Some []"
    by (simp add: recorded_dependencies_def)
  have ne: "[PosixPath ''other_lib''] \<noteq> []" and other: "''idle.gml'' \<noteq> as_posix (PosixPath ''attack.gml'')"
    by simp_all
  have idle: "recorded_dependencies ?dotfile ''idle.gml'' = Some [''combo_lib'']"
    by (simp add: recorded_dependencies_def)
  show ?thesis
    using dependency_table_entry_invariant
      [of ?dotfile "PosixPath ''attack.gml''" "[PosixPath ''other_lib'']" "''idle.gml''"] inv ne other idle
    by simp
qed

section \<open>Decomposition of the tags\<close>

lemma content_given: "u_content self = Some c \<Longrightarrow> content read_file self = Inr c"
  by (simp add: content_def)

lemma content_not_given: "u_content self = None \<Longrightarrow> \<exists>e. content read_file self = Inl e"
  by (simp add: content_def from_path_def split: sum.split)

lemma content_Inr_iff: "content read_file self = Inr c \<longleftrightarrow> u_content self = Some c"
  by (auto simp: content_def from_path_def split: option.splits sum.splits)

lemma get_windows_in_frame_range_eq:
  assumes "content read_file self = Inr c"
  shows "get_windows_in_frame_range read_file self a b =
     Inr (map (\<lambda>t. Window (tag_name t) (tag_start t - a + 1) (tag_end t - a + 1))
            (filter (\<lambda>t. tag_color t \<in> set (window_tag_colors self)
                         \<and> a \<le> tag_start t \<and> tag_start t \<le> b
                         \<and> a \<le> tag_end t \<and> tag_end t \<le> b)
               (tags c)))"
proof -
  have "concat (map (\<lambda>t. [Window (tag_name t) (tag_start t - a + 1) (tag_end t - a + 1)])
            (concat (map (\<lambda>t. if tag_color t \<in> set (window_tag_colors self)
                    \<and> (a \<le> tag_start t \<and> tag_start t \<le> b)
                    \<and> (a \<le> tag_end t \<and> tag_end t \<le> b) then [t] else []) ts))) =
     map (\<lambda>t. Window (tag_name t) (tag_start t - a + 1) (tag_end t - a + 1))
       (filter (\<lambda>t. tag_color t \<in> set (window_tag_colors self)
                    \<and> a \<le> tag_start t \<and> tag_start t \<le> b
                    \<and> a \<le> tag_end t \<and> tag_end t \<le> b) ts)" for ts
    by (induction ts) auto
  with assms show ?thesis
    by (simp add: get_windows_in_frame_range_def)
qed

lemma get_windows_in_frame_range_error:
  "content read_file self = Inl e \<Longrightarrow> get_windows_in_frame_range read_file self a b = Inl e"
  by (simp add: get_windows_in_frame_range_def)

lemma collect_Inr: "collect (map (\<lambda>x. Inr (f x)) xs) = Inr (map f xs)"
  by (induction xs) simp_all

lemma get_anims_eq:
  assumes "content read_file self = Inr c"
  shows "get_anims read_file self =
     Inr (if filter (\<lambda>t. tag_color t \<in> set (anim_tag_colors self)) (tags c) \<noteq> []
          then map (\<lambda>t. Anim (tag_name t) (tag_start t) (tag_end t)
                          (map (\<lambda>w. Window (tag_name w) (tag_start w - tag_start t + 1)
                                      (tag_end w - tag_start t + 1))
                             (filter (\<lambda>w. tag_color w \<in> set (window_tag_colors self)
                                          \<and> tag_start t \<le> tag_start w \<and> tag_start w \<le> tag_end t
                                          \<and> tag_start t \<le> tag_end w \<and> tag_end w \<le> tag_end t)
                                (tags c)))
                          (is_fresh self) c (anim_hashes self))
                 (filter (\<lambda>t. tag_color t \<in> set (anim_tag_colors self)) (tags c))
          else [Anim (stem (path self)) 0 (num_frames c - 1)
                  (map (\<lambda>w. Window (tag_name w) (tag_start w - 0 + 1) (tag_end w - 0 + 1))
                     (filter (\<lambda>w. tag_color w \<in> set (window_tag_colors self)
                                  \<and> 0 \<le> tag_start w \<and> tag_start w \<le> num_frames c - 1
                                  \<and> 0 \<le> tag_end w \<and> tag_end w \<le> num_frames c - 1)
                        (tags c)))
                  (is_fresh self) c (anim_hashes self)])"
proof -
  let ?anim = "\<lambda>t. Anim (tag_name t) (tag_start t) (tag_end t)
                          (map (\<lambda>w. Window (tag_name w) (tag_start w - tag_start t + 1)
                                      (tag_end w - tag_start t + 1))
                             (filter (\<lambda>w. tag_color w \<in> set (window_tag_colors self)
                                          \<and> tag_start t \<le> tag_start w \<and> tag_start w \<le> tag_end t
                                          \<and> tag_start t \<le> tag_end w \<and> tag_end w \<le> tag_end t)
                                (tags c)))
                          (is_fresh self) c (anim_hashes self)"
  have make: "make_anim_with_windows_in_range read_file self n s e fresh c' h =
      Inr (Anim n s e
             (map (\<lambda>w. Window (tag_name w) (tag_start w - s + 1) (tag_end w - s + 1))
                (filter (\<lambda>w. tag_color w \<in> set (window_tag_colors self)
                             \<and> s \<le> tag_start w \<and> tag_start w \<le> e
                             \<and> s \<le> tag_end w \<and> tag_end w \<le> e)
                   (tags c)))
             fresh c' h)" for n s e fresh c' h
    by (simp add: make_anim_with_windows_in_range_def get_windows_in_frame_range_eq [OF assms])
  have "concat (map (\<lambda>t. if tag_color t \<in> set (anim_tag_colors self)
            then [make_anim_with_windows_in_range read_file self (tag_name t) (tag_start t)
                    (tag_end t) (is_fresh self) c (anim_hashes self)]
            else []) ts) =
      map (\<lambda>t. Inr (?anim t)) (filter (\<lambda>t. tag_color t \<in> set (anim_tag_colors self)) ts)" for ts
    by (induction ts) (simp_all add: make)
  then show ?thesis
    using assms by (simp add: get_anims_def collect_Inr make)
qed

lemma get_anims_error:
  "content read_file self = Inl e \<Longrightarrow> get_anims read_file self = Inl e"
  by (simp add: get_anims_def)

text \<open>
  C2. For an asset that has its content: when some tag has a color among the animation
  colors, \<^verbatim>\<open>get_anims\<close> gives one animation for each such tag, in the order of the tags,
  with the tag's name, start and end; when no tag has such a color, it gives exactly one
  animation, named after the file (the stem of its path), from frame 0 to the number of
  frames minus one. For an asset whose content is still to be loaded there is no list of
  tags: the load raises and \<^verbatim>\<open>get_anims\<close> raises with it.
\<close>

theorem decomposition_contract:
  "(content read_file self = Inr c \<longrightarrow>
      (\<exists>result. get_anims read_file self = Inr result
         \<and> (filter (\<lambda>t. tag_color t \<in> set (anim_tag_colors self)) (tags c) \<noteq> [] \<longrightarrow>
              map (\<lambda>a. (anim_name a, anim_start a, anim_end a)) result =
                map (\<lambda>t. (tag_name t, tag_start t, tag_end t))
                  (filter (\<lambda>t. tag_color t \<in> set (anim_tag_colors self)) (tags c)))
         \<and> (filter (\<lambda>t. tag_color t \<in> set (anim_tag_colors self)) (tags c) = [] \<longrightarrow>
              (\<exists>a. result = [a] \<and> anim_name a = stem (path self)
                 \<and> anim_start a = 0 \<and> anim_end a = num_frames c - 1))))
   \<and> (content read_file self = Inl e \<longrightarrow> get_anims read_file self = Inl e)
   \<and> (u_content self = None \<longrightarrow> (\<exists>e. get_anims read_file self = Inl e))"
proof (intro conjI impI)
  assume "content read_file self = Inr c"
  then show "\<exists>result. get_anims read_file self = Inr result
         \<and> (filter (\<lambda>t. tag_color t \<in> set (anim_tag_colors self)) (tags c) \<noteq> [] \<longrightarrow>
              map (\<lambda>a. (anim_name a, anim_start a, anim_end a)) result =
                map (\<lambda>t. (tag_name t, tag_start t, tag_end t))
                  (filter (\<lambda>t. tag_color t \<in> set (anim_tag_colors self)) (tags c)))
         \<and> (filter (\<lambda>t. tag_color t \<in> set (anim_tag_colors self)) (tags c) = [] \<longrightarrow>
              (\<exists>a. result = [a] \<and> anim_name a = stem (path self)
                 \<and> anim_start a = 0 \<and> anim_end a = num_frames c - 1))"
    by (simp add: get_anims_eq comp_def)
next
  assume "content read_file self = Inl e"
  then show "get_anims read_file self = Inl e"
    by (rule get_anims_error)
next
  assume "u_content self = None"
  then show "\<exists>e. get_anims read_file self = Inl e"
    using content_not_given [of self read_file] get_anims_error [of read_file self] by auto
qed

lemma stem_example: "stem (PosixPath ''anims/A.ase'') = ''A''"
  by code_simp

lemma content_example:
  "content read_file (example_aseprite n ts) = Inr (example_content n ts)"
  "tags (example_content n ts) = ts" "num_frames (example_content n ts) = n"
  by (simp_all add: content_def example_aseprite_def example_content_def tags_def num_frames_def)

theorem decomposition_contract_witness:
  "content example_reader (example_aseprite 4 [Tag ''run'' 0 3 ''red'', Tag ''hitbox'' 1 2 ''blue''])
     = Inr (example_content 4 [Tag ''run'' 0 3 ''red'', Tag ''hitbox'' 1 2 ''blue''])
   \<and> (\<exists>result. get_anims example_reader
          (example_aseprite 4 [Tag ''run'' 0 3 ''red'', Tag ''hitbox'' 1 2 ''blue'']) = Inr result
        \<and> map (\<lambda>a. (anim_name a, anim_start a, anim_end a)) result = [(''run'', 0, 3)])
   \<and> content example_reader (example_aseprite 5 []) = Inr (example_content 5 [])
   \<and> (\<exists>a. get_anims example_reader (example_aseprite 5 []) = Inr [a]
          \<and> anim_name a = ''A'' \<and> anim_start a = 0 \<and> anim_end a = 4)
   \<and> u_content ((example_aseprite 5 [])\<lparr>u_content := None\<rparr>) = None
   \<and> (\<exists>e. get_anims example_reader ((example_aseprite 5 [])\<lparr>u_content := None\<rparr>) = Inl e)"
proof -
  have colors: "anim_tag_colors (example_aseprite n ts) = [''red'']"
    and p: "path (example_aseprite n ts) = PosixPath ''anims/A.ase''" for n ts
    by (simp_all add: example_aseprite_def)
  show ?thesis
    using
      decomposition_contract [of example_reader
        "example_aseprite 4 [Tag ''run'' 0 3 ''red'', Tag ''hitbox'' 1 2 ''blue'']"
        "example_content 4 [Tag ''run'' 0 3 ''red'', Tag ''hitbox'' 1 2 ''blue'']"]
      decomposition_contract [of example_reader "example_aseprite 5 []" "example_content 5 []"]
      decomposition_contract [of example_reader "(example_aseprite 5 [])\<lparr>u_content := None\<rparr>"]
    by (simp add: content_example colors p stem_example) blast
qed

text \<open>
  C3 (amended). For an asset that has its content, and a tag \<open>t\<close> of it with a color
  among the window colors whose start \<open>s\<close> and end \<open>e\<close> both lie in \<open>[a, b]\<close>, the
  windows of the range \<open>[a, b]\<close> contain a window with the tag's name, start
  \<open>s - a + 1\<close> and end \<open>e - a + 1\<close>; its start and its end both lie in
  \<open>[1, b - a + 1]\<close>, and its start is at most its end exactly when \<open>s \<le> e\<close>, which the
  code does not ask of a tag.
\<close>

theorem window_remapping_law:
  assumes "content read_file self = Inr c"
    and "t \<in> set (tags c)"
    and "tag_color t \<in> set (window_tag_colors self)"
    and "a \<le> tag_start t" and "tag_start t \<le> b"
    and "a \<le> tag_end t" and "tag_end t \<le> b"
  shows "\<exists>ws. get_windows_in_frame_range read_file self a b = Inr ws
           \<and> (\<exists>w \<in> set ws.
                 window_name w = tag_name t
                 \<and> window_start w = tag_start t - a + 1 \<and> window_end w = tag_end t - a + 1
                 \<and> 1 \<le> window_start w \<and> window_start w \<le> b - a + 1
                 \<and> 1 \<le> window_end w \<and> window_end w \<le> b - a + 1
                 \<and> (window_start w \<le> window_end w \<longleftrightarrow> tag_start t \<le> tag_end t))"
proof -
  let ?w = "Window (tag_name t) (tag_start t - a + 1) (tag_end t - a + 1)"
  let ?ws = "map (\<lambda>t. Window (tag_name t) (tag_start t - a + 1) (tag_end t - a + 1))
            (filter (\<lambda>t. tag_color t \<in> set (window_tag_colors self)
                         \<and> a \<le> tag_start t \<and> tag_start t \<le> b
                         \<and> a \<le> tag_end t \<and> tag_end t \<le> b)
               (tags c))"
  have ws: "get_windows_in_frame_range read_file self a b = Inr ?ws"
    by (rule get_windows_in_frame_range_eq [OF assms(1)])
  have "?w \<in> set ?ws"
    using assms(2-) by (simp add: image_iff) blast
  moreover have "1 \<le> window_start ?w \<and> window_start ?w \<le> b - a + 1
      \<and> 1 \<le> window_end ?w \<and> window_end ?w \<le> b - a + 1
      \<and> (window_start ?w \<le> window_end ?w \<longleftrightarrow> tag_start t \<le> tag_end t)"
    using assms(2-) by simp
  ultimately have "\<exists>w \<in> set ?ws.
                 window_name w = tag_name t
                 \<and> window_start w = tag_start t - a + 1 \<and> window_end w = tag_end t - a + 1
                 \<and> 1 \<le> window_start w \<and> window_start w \<le> b - a + 1
                 \<and> 1 \<le> window_end w \<and> window_end w \<le> b - a + 1
                 \<and> (window_start w \<le> window_end w \<longleftrightarrow> tag_start t \<le> tag_end t)"
    by (intro bexI [of _ ?w]) simp_all
  with ws show ?thesis by blast
qed

theorem window_remapping_law_witness:
  "content example_reader (example_aseprite 4 [Tag ''run'' 0 3 ''red'', Tag ''hitbox'' 1 2 ''blue''])
     = Inr (example_content 4 [Tag ''run'' 0 3 ''red'', Tag ''hitbox'' 1 2 ''blue''])
   \<and> Tag ''hitbox'' 1 2 ''blue''
       \<in> set (tags (example_content 4 [Tag ''run'' 0 3 ''red'', Tag ''hitbox'' 1 2 ''blue'']))
   \<and> (\<exists>ws. get_windows_in_frame_range example_reader
               (example_aseprite 4 [Tag ''run'' 0 3 ''red'', Tag ''hitbox'' 1 2 ''blue'']) 0 3
             = Inr ws
          \<and> (\<exists>w \<in> set ws. window_name w = ''hitbox'' \<and> window_start w = 2 \<and> window_end w = 3))"
proof -
  have "window_tag_colors (example_aseprite n ts) = [''blue'']" for n ts
    by (simp add: example_aseprite_def)
  then show ?thesis
    using window_remapping_law [of example_reader
        "example_aseprite 4 [Tag ''run'' 0 3 ''red'', Tag ''hitbox'' 1 2 ''blue'']"
        "example_content 4 [Tag ''run'' 0 3 ''red'', Tag ''hitbox'' 1 2 ''blue'']"
        "Tag ''hitbox'' 1 2 ''blue''" 0 3]
    by (auto simp: content_example)
qed

text \<open>
  C3 as stated fails on a tag whose start is after its end: the tag from frame 3 to
  frame 2 lies in \<open>[0, 5]\<close> and gives the window from 4 to 3.
\<close>

theorem window_order_counterexample:
  "content example_reader (example_aseprite 6 [Tag ''hitbox'' 3 2 ''blue''])
     = Inr (example_content 6 [Tag ''hitbox'' 3 2 ''blue''])
   \<and> Tag ''hitbox'' 3 2 ''blue'' \<in> set (tags (example_content 6 [Tag ''hitbox'' 3 2 ''blue'']))
   \<and> ''blue'' \<in> set (window_tag_colors (example_aseprite 6 [Tag ''hitbox'' 3 2 ''blue'']))
   \<and> (0::int) \<le> 3 \<and> (3::int) \<le> 5 \<and> (0::int) \<le> 2 \<and> (2::int) \<le> 5
   \<and> get_windows_in_frame_range example_reader
        (example_aseprite 6 [Tag ''hitbox'' 3 2 ''blue'']) 0 5 = Inr [Window ''hitbox'' 4 3]
   \<and> \<not> window_start (Window ''hitbox'' 4 3) \<le> window_end (Window ''hitbox'' 4 3)"
  by (simp add: get_windows_in_frame_range_eq [OF content_example(1)] content_example)
     (simp add: example_aseprite_def)

lemma content_with_tags:
  "content read_file (with_tags self c ts) =
     Inr (c\<lparr>file_data := (file_data c)\<lparr>get_tags := ts\<rparr>\<rparr>)"
  "tags (c\<lparr>file_data := (file_data c)\<lparr>get_tags := ts\<rparr>\<rparr>) = ts"
  "window_tag_colors (with_tags self c ts) = window_tag_colors self"
  by (simp_all add: with_tags_def content_def tags_def)

text \<open>
  C7. A tag whose start or end lies outside \<open>[a, b]\<close> gives no window of the range
  \<open>[a, b]\<close>: the windows are the same as for the content without the tag, and the window
  the tag would give is not among them. Every window of the range is the image,
  unclipped, of a tag with a window color whose start and end both lie in \<open>[a, b]\<close>.
\<close>

theorem straddling_window_exclusion:
  assumes "tag_start t < a \<or> b < tag_start t \<or> tag_end t < a \<or> b < tag_end t"
  shows "(\<exists>ws. get_windows_in_frame_range read_file (with_tags self c (xs @ t # ys)) a b = Inr ws
              \<and> get_windows_in_frame_range read_file (with_tags self c (xs @ ys)) a b = Inr ws
              \<and> Window (tag_name t) (tag_start t - a + 1) (tag_end t - a + 1) \<notin> set ws)
         \<and> (content read_file self = Inr c' \<longrightarrow>
              (\<exists>ws. get_windows_in_frame_range read_file self a b = Inr ws
                 \<and> (\<forall>w \<in> set ws.
                       \<exists>t' \<in> set (tags c').
                         tag_color t' \<in> set (window_tag_colors self)
                         \<and> a \<le> tag_start t' \<and> tag_end t' \<le> b
                         \<and> a \<le> tag_end t' \<and> tag_start t' \<le> b
                         \<and> w = Window (tag_name t') (tag_start t' - a + 1)
                                 (tag_end t' - a + 1))))"
proof (intro conjI impI)
  show "\<exists>ws. get_windows_in_frame_range read_file (with_tags self c (xs @ t # ys)) a b = Inr ws
              \<and> get_windows_in_frame_range read_file (with_tags self c (xs @ ys)) a b = Inr ws
              \<and> Window (tag_name t) (tag_start t - a + 1) (tag_end t - a + 1) \<notin> set ws"
    using assms
    by (auto simp: get_windows_in_frame_range_eq [OF content_with_tags(1)] content_with_tags)
next
  assume "content read_file self = Inr c'"
  then show "\<exists>ws. get_windows_in_frame_range read_file self a b = Inr ws
                 \<and> (\<forall>w \<in> set ws.
                       \<exists>t' \<in> set (tags c').
                         tag_color t' \<in> set (window_tag_colors self)
                         \<and> a \<le> tag_start t' \<and> tag_end t' \<le> b
                         \<and> a \<le> tag_end t' \<and> tag_start t' \<le> b
                         \<and> w = Window (tag_name t') (tag_start t' - a + 1)
                                 (tag_end t' - a + 1))"
    by (auto simp: get_windows_in_frame_range_eq)
qed

theorem straddling_window_exclusion_witness:
  "((2::int) < 0 \<or> (3::int) < 2 \<or> (6::int) < 0 \<or> (3::int) < 6)
   \<and> (\<exists>ws. get_windows_in_frame_range example_reader
               (with_tags (example_aseprite 4 []) (example_content 4 [])
                  ([Tag ''run'' 0 3 ''red''] @ Tag ''hitbox'' 2 6 ''blue''
                     # [Tag ''inside'' 1 2 ''blue''])) 0 3 = Inr ws
          \<and> get_windows_in_frame_range example_reader
               (with_tags (example_aseprite 4 []) (example_content 4 [])
                  ([Tag ''run'' 0 3 ''red''] @ [Tag ''inside'' 1 2 ''blue''])) 0 3 = Inr ws
          \<and> Window ''hitbox'' 3 7 \<notin> set ws)"
  using straddling_window_exclusion [of "Tag ''hitbox'' 2 6 ''blue''" 0 3 example_reader
      "example_aseprite 4 []" "example_content 4 []" "[Tag ''run'' 0 3 ''red'']"
      "[Tag ''inside'' 1 2 ''blue'']"]
  by simp

section \<open>The animation hashes of an asset\<close>

lemma hashes_of_record_hash:
  "hashes_of (record_hash dotfile (HashesOf k) anim fingerprint) (HashesOf k') =
     (if k' = k then map_option (\<lambda>h. dict_setitem h anim fingerprint) (hashes_of dotfile (HashesOf k))
      else hashes_of dotfile (HashesOf k'))"
  by (auto simp: hashes_of_def record_hash_def map_of_dict_setitem split: option.splits)

lemma hashes_of_read_aseprite:
  "hashes_of (rc_dotfile (snd (read_aseprite ext run_context p t))) (HashesOf k) =
     (if k = stem p \<and> hashes_of (rc_dotfile run_context) (HashesOf k) = None then Some []
      else hashes_of (rc_dotfile run_context) (HashesOf k))"
  by (auto simp: hashes_of_def read_aseprite_def Let_def dict_setdefault_def map_of_dict_setitem
      split: option.splits)

text \<open>
  C6 (amended). The dict of hashes attached to an asset by \<^verbatim>\<open>read_aseprite\<close> is the one
  the dotfile stores under the stem of the asset's path; it exists after the read, and
  the read leaves every dict the dotfile stored before as it was. Recording a hash in the
  dict of one stem leaves the dict of every other stem unchanged, and two assets of the
  same stem are attached to one and the same dict.
\<close>

theorem hash_cache_scoped_by_stem:
  "anim_hashes (fst (read_aseprite ext run_context p t)) = Some (HashesOf (stem p))
   \<and> (\<exists>h. hashes_of (rc_dotfile (snd (read_aseprite ext run_context p t))) (HashesOf (stem p))
           = Some h)
   \<and> (hashes_of (rc_dotfile run_context) r = Some h \<longrightarrow>
        hashes_of (rc_dotfile (snd (read_aseprite ext run_context p t))) r = Some h)
   \<and> (stem p \<noteq> stem q \<longrightarrow>
        hashes_of (record_hash dotfile (HashesOf (stem p)) anim fingerprint) (HashesOf (stem q)) =
          hashes_of dotfile (HashesOf (stem q)))
   \<and> (stem p = stem q \<longrightarrow>
        hashes_of (record_hash dotfile (HashesOf (stem p)) anim fingerprint) (HashesOf (stem q)) =
          map_option (\<lambda>h. dict_setitem h anim fingerprint) (hashes_of dotfile (HashesOf (stem q))))"
proof -
  have "anim_hashes (fst (read_aseprite ext run_context p t)) = Some (HashesOf (stem p))"
    by (simp add: read_aseprite_def Let_def)
  moreover have "hashes_of (rc_dotfile run_context) r = Some h \<longrightarrow>
        hashes_of (rc_dotfile (snd (read_aseprite ext run_context p t))) r = Some h"
    by (cases r) (simp add: hashes_of_read_aseprite)
  moreover have "\<exists>h. hashes_of (rc_dotfile (snd (read_aseprite ext run_context p t)))
                     (HashesOf (stem p)) = Some h"
    by (auto simp: hashes_of_read_aseprite)
  ultimately show ?thesis
    by (simp add: hashes_of_record_hash)
qed

lemma stem_idle:
  "stem (PosixPath ''anims/a/idle.ase'') = ''idle''" "stem (PosixPath ''anims/b/idle.ase'') = ''idle''"
  "stem (PosixPath ''anims/a/walk.ase'') = ''walk''"
  by code_simp+

theorem hash_cache_scoped_by_stem_witness:
  "stem (PosixPath ''anims/a/idle.ase'') \<noteq> stem (PosixPath ''anims/a/walk.ase'')
   \<and> hashes_of (rc_dotfile (snd first_read)) (HashesOf ''idle'') = Some []
   \<and> hashes_of (rc_dotfile (snd second_read)) (HashesOf ''idle'') = Some []
   \<and> hashes_of (record_hash (rc_dotfile (snd second_read)) (HashesOf ''idle'') ''jab'' ''0f3a'')
        (HashesOf ''walk'') =
      hashes_of (rc_dotfile (snd second_read)) (HashesOf ''walk'')"
proof -
  have ne: "stem (PosixPath ''anims/a/idle.ase'') \<noteq> stem (PosixPath ''anims/a/walk.ase'')"
    by (simp add: stem_idle)
  have first: "hashes_of (rc_dotfile (snd first_read)) (HashesOf ''idle'') = Some []"
    by (simp add: first_read_def hashes_of_read_aseprite stem_idle)
       (simp add: example_context_def hashes_of_def)
  show ?thesis
    using ne first
      hash_cache_scoped_by_stem [of example_collaborators "snd first_read"
        "PosixPath ''anims/b/idle.ase''" None "HashesOf ''idle''" "[]"]
      hash_cache_scoped_by_stem [of example_collaborators "snd first_read"
        "PosixPath ''anims/a/idle.ase''" None "HashesOf ''idle''" "[]"
        "PosixPath ''anims/a/walk.ase''" "rc_dotfile (snd second_read)" "''jab''" "''0f3a''"]
    by (simp add: second_read_def stem_idle)
qed

text \<open>
  C6 as stated fails on two assets with distinct paths and the same stem: after both are
  read, a hash recorded through the first is looked up through the second.
\<close>

theorem hash_cache_shared_stem_counterexample:
  "PosixPath ''anims/a/idle.ase'' \<noteq> PosixPath ''anims/b/idle.ase''
   \<and> anim_hashes (fst first_read) = Some (HashesOf ''idle'')
   \<and> anim_hashes (fst second_read) = Some (HashesOf ''idle'')
   \<and> hashes_of (rc_dotfile (snd second_read)) (HashesOf ''idle'') = Some []
   \<and> hashes_of (record_hash (rc_dotfile (snd second_read)) (HashesOf ''idle'') ''jab'' ''0f3a'')
        (HashesOf ''idle'') = Some [(''jab'', ''0f3a'')]"
proof -
  have first: "hashes_of (rc_dotfile (snd first_read)) (HashesOf ''idle'') = Some []"
    by (simp add: first_read_def hashes_of_read_aseprite stem_idle)
       (simp add: example_context_def hashes_of_def)
  then have second: "hashes_of (rc_dotfile (snd second_read)) (HashesOf ''idle'') = Some []"
    by (simp add: second_read_def hashes_of_read_aseprite stem_idle)
  have "anim_hashes (fst first_read) = Some (HashesOf ''idle'')"
    "anim_hashes (fst second_read) = Some (HashesOf ''idle'')"
    by (simp_all add: first_read_def second_read_def read_aseprite_def Let_def stem_idle)
  with second show ?thesis
    by (simp add: hashes_of_record_hash)
qed

section \<open>Saving a sprite strip\<close>

lemma delete_old_save_commands:
  "commands_run (snd (delete_old_save env self root_dir w)) = commands_run w"
  by (simp add: delete_old_save_def Let_def split: sum.split)

lemma content_pkg_AsepriteData:
  "content_pkg env (self\<lparr>u_content_pkg := None\<rparr>) = AsepriteData (read_tags env (path self)) []"
  "content_pkg env (self\<lparr>u_content_pkg := Some (AsepriteData_init tags')\<rparr>) =
     AsepriteData (case tags' of None \<Rightarrow> [] | Some ts \<Rightarrow> ts) []"
  by (simp_all add: content_pkg_def from_path_pkg_def AsepriteData_init_def get_anims_pkg_def)

lemma save_of_AsepriteData:
  assumes "content_pkg env self = AsepriteData ts as"
  shows "(\<exists>e. fst (save env self root_dir aseprite_path has_small_sprites w) = Inl e)
         \<and> commands_run (snd (save env self root_dir aseprite_path has_small_sprites w)) =
             commands_run w"
proof (cases "delete_old_save env self root_dir w")
  case (Pair res w')
  then have "commands_run w' = commands_run w"
    using delete_old_save_commands [of env self root_dir w] by simp
  with Pair assms show ?thesis
    by (cases res) (simp_all add: save_def)
qed

text \<open>
  C8. The claim is that an exported asset goes to \<^verbatim>\<open><base_name>_strip<frame_count>.png\<close>
  after the old strips are removed. \<^verbatim>\<open>save\<close> removes the old strips and then reads
  \<^verbatim>\<open>self.content.frames\<close>, an attribute that \<^verbatim>\<open>AsepriteData\<close> does not have: for an asset
  whose content is loaded from its path, or is any \<^verbatim>\<open>AsepriteData\<close>, \<^verbatim>\<open>save\<close> ends in an
  error and runs no export command. On the example project the strip
  \<^verbatim>\<open>idle_strip2.png\<close> is removed, \<^verbatim>\<open>AttributeError\<close> is raised and nothing is exported.
\<close>

theorem save_never_exports_AsepriteData:
  "(\<exists>e. fst (save env (self\<lparr>u_content_pkg := None\<rparr>) root_dir aseprite_path
              has_small_sprites w) = Inl e)
   \<and> commands_run (snd (save env (self\<lparr>u_content_pkg := None\<rparr>) root_dir aseprite_path
                          has_small_sprites w)) = commands_run w
   \<and> (\<exists>e. fst (save env (self\<lparr>u_content_pkg := Some (AsepriteData_init tags')\<rparr>) root_dir
                 aseprite_path has_small_sprites w) = Inl e)
   \<and> commands_run (snd (save env (self\<lparr>u_content_pkg := Some (AsepriteData_init tags')\<rparr>)
                          root_dir aseprite_path has_small_sprites w)) = commands_run w
   \<and> save example_env (example_asset (Some (AsepriteData_init (Some [])))) (PosixPath ''/project'')
       (PosixPath ''/opt/aseprite'') False example_world =
       (Inl AttributeError,
        \<lparr>files = [PosixPath ''/project/anims/idle.ase'', PosixPath ''/project/sprites/walk_strip6.png''],
         commands_run = []\<rparr>)"
proof -
  have "save example_env (example_asset (Some (AsepriteData_init (Some [])))) (PosixPath ''/project'')
       (PosixPath ''/opt/aseprite'') False example_world =
       (Inl AttributeError,
        \<lparr>files = [PosixPath ''/project/anims/idle.ase'', PosixPath ''/project/sprites/walk_strip6.png''],
         commands_run = []\<rparr>)"
    by code_simp
  moreover have "(\<exists>e. fst (save env (self\<lparr>u_content_pkg := None\<rparr>) root_dir aseprite_path
              has_small_sprites w) = Inl e)
   \<and> commands_run (snd (save env (self\<lparr>u_content_pkg := None\<rparr>) root_dir aseprite_path
                          has_small_sprites w)) = commands_run w"
    by (rule save_of_AsepriteData [OF content_pkg_AsepriteData(1)])
  moreover have "(\<exists>e. fst (save env (self\<lparr>u_content_pkg := Some (AsepriteData_init tags')\<rparr>) root_dir
                 aseprite_path has_small_sprites w) = Inl e)
   \<and> commands_run (snd (save env (self\<lparr>u_content_pkg := Some (AsepriteData_init tags')\<rparr>)
                          root_dir aseprite_path has_small_sprites w)) = commands_run w"
    by (rule save_of_AsepriteData [OF content_pkg_AsepriteData(2)])
  ultimately show ?thesis
    by blast
qed

text \<open>
  With a content object that does have the attribute \<^verbatim>\<open>frames\<close>, here three frames,
  the same call removes the old strip and exports to \<^verbatim>\<open>idle_strip3.png\<close>.
\<close>

lemma save_with_frames_example:
  "save example_env (example_asset (Some (ContentWithFrames [0, 1, 2]))) (PosixPath ''/project'')
       (PosixPath ''/opt/aseprite'') True example_world =
       (Inr (),
        \<lparr>files = [PosixPath ''/project/anims/idle.ase'', PosixPath ''/project/sprites/walk_strip6.png''],
         commands_run =
           [[CHR 0x22] @ ''/opt/aseprite'' @ [CHR 0x22] @ '' -b ''
            @ [CHR 0x22] @ ''/project/anims/idle.ase'' @ [CHR 0x22] @ '' --scale 2 --sheet ''
            @ [CHR 0x22] @ ''/project/sprites/idle_strip3.png'' @ [CHR 0x22]]\<rparr>)"
  by code_simp

end
